theory Spec2Isabelle
  imports Complex_Main "HOL-Library.Sublist" "HOL-Library.Multiset"
begin

section \<open>Text, as Python sees it\<close>

text \<open>
  A Python \<open>str\<close> is a sequence of Unicode code points: \<open>len\<close> counts code points,
  \<open>c in s\<close> looks for a code point, \<open>s[0]\<close> is the first code point. Text is therefore a
  list of code points (natural numbers), not a list of bytes.
\<close>

type_synonym ustring = "nat list"

definition ascii :: "string \<Rightarrow> ustring" where
  "ascii s = map of_char s"

text \<open>
  The program calls three functions of the Python runtime whose value beyond ASCII is
  decided by the Unicode character database, and one float formatter. On ASCII input
  their value is written out below; for the rest they are taken as parameters:
  \<^item> \<open>lower_ext\<close>: \<open>str.lower()\<close> of a string that holds a non-ASCII code point;
  \<^item> \<open>word_ext\<close>: whether a non-ASCII code point is a word character of the module \<open>re\<close>;
  \<^item> \<open>upper_ext\<close>: \<open>str.isupper()\<close> of a non-ASCII code point;
  \<^item> \<open>fmt1\<close>: the text of a number under the format \<open>:.1f\<close>.
\<close>

record pylib =
  lower_ext :: "ustring \<Rightarrow> ustring"
  word_ext :: "nat \<Rightarrow> bool"
  upper_ext :: "nat \<Rightarrow> bool"
  fmt1 :: "rat \<Rightarrow> ustring"

definition is_ascii_upper :: "nat \<Rightarrow> bool" where
  "is_ascii_upper c = (65 \<le> c \<and> c \<le> 90)"

definition is_ascii_lower :: "nat \<Rightarrow> bool" where
  "is_ascii_lower c = (97 \<le> c \<and> c \<le> 122)"

definition is_ascii_letter :: "nat \<Rightarrow> bool" where
  "is_ascii_letter c = (is_ascii_upper c \<or> is_ascii_lower c)"

definition ascii_lower :: "nat \<Rightarrow> nat" where
  "ascii_lower c = (if is_ascii_upper c then c + 32 else c)"

definition py_lower :: "pylib \<Rightarrow> ustring \<Rightarrow> ustring" where
  "py_lower L s = (if list_all (\<lambda>c. c < 128) s then map ascii_lower s else lower_ext L s)"

definition py_isupper :: "pylib \<Rightarrow> nat \<Rightarrow> bool" where
  "py_isupper L c = (if c < 128 then is_ascii_upper c else upper_ext L c)"

definition is_word_char :: "pylib \<Rightarrow> nat \<Rightarrow> bool" where
  "is_word_char L c =
     (if c < 128 then is_ascii_letter c \<or> (48 \<le> c \<and> c \<le> 57) \<or> c = 95 else word_ext L c)"

text \<open>\<open>needle in s\<close> for strings: \<open>needle\<close> occurs in \<open>s\<close> as a contiguous block.\<close>

fun contains :: "ustring \<Rightarrow> ustring \<Rightarrow> bool" where
  "contains needle [] = (needle = [])"
| "contains needle (c # cs) = (prefix needle (c # cs) \<or> contains needle cs)"

text \<open>
  \<open>int(x)\<close> of a Python float truncates toward zero. Floats are modelled by exact
  rationals; where the rounding of float arithmetic can change a result, the text says so.
\<close>

definition py_int :: "rat \<Rightarrow> int" where
  "py_int x = (if 0 \<le> x then \<lfloor>x\<rfloor> else \<lceil>x\<rceil>)"

datatype py_error = IndexError | TypeError

datatype platform = Twitter | Instagram

section \<open>The scorer\<close>

text \<open>
  The part of the insights dictionary that the scorer reads. \<open>optimal_length\<close> is
  \<open>None\<close> or an integer; \<open>tracked_posts\<close> is a row count.
\<close>

record insights =
  total_posts :: int
  tracked_posts :: int
  ins_avg_engagement :: rat
  best_hashtag :: "(ustring \<times> rat) option"
  optimal_length :: "int option"

text \<open>The code points of the literal \<open>'...'\<close> that \<open>_score_content_quality_learned\<close>
  iterates over: nine emoji, one of them (the red heart) two code points long.\<close>

definition emoji_set :: "nat list" where
  "emoji_set = [128522, 128293, 128175, 10084, 65039, 128077, 127881, 10024, 128170, 128588]"

definition question_mark :: nat where
  "question_mark = 63"

text \<open>
  \<open>insights.get('optimal_length')\<close> is tested for truth: \<open>None\<close> and \<open>0\<close> both take
  the \<open>else\<close> branch, where the platform's fixed range decides.
\<close>

definition canonical_range_points :: "int \<Rightarrow> platform \<Rightarrow> int" where
  "canonical_range_points text_length pf =
     (if pf = Twitter \<and> 100 \<le> text_length \<and> text_length \<le> 280 then 20
      else if pf = Instagram \<and> 138 \<le> text_length \<and> text_length \<le> 2200 then 20
      else 0)"

definition learned_length_points :: "int \<Rightarrow> int \<Rightarrow> int" where
  "learned_length_points text_length optimal =
     (let length_diff = \<bar>text_length - optimal\<bar>
      in if length_diff < 50 then 25 else if length_diff < 100 then 15 else 5)"

definition score_content_quality_learned ::
    "pylib \<Rightarrow> ustring \<Rightarrow> platform \<Rightarrow> insights \<Rightarrow> py_error + int" where
  "score_content_quality_learned L text pf ins =
     (let text_length = int (length text);
          score = 50 +
            (case optimal_length ins of
               Some optimal \<Rightarrow>
                 if optimal \<noteq> 0 then learned_length_points text_length optimal
                 else canonical_range_points text_length pf
             | None \<Rightarrow> canonical_range_points text_length pf);
          score = (if question_mark \<in> set text then score + 10 else score);
          score = (if \<exists>emoji \<in> set emoji_set. emoji \<in> set text then score + 10 else score)
      in case text of
           [] \<Rightarrow> Inl IndexError
         | c # _ \<Rightarrow>
             (let score = (if py_isupper L c then score + 5 else score)
              in Inr (min 100 (max 0 score))))"

text \<open>
  A proposed hashtag, the dictionary with keys \<open>tag\<close>, \<open>relevance\<close>, \<open>popularity\<close> and
  \<open>reason\<close>. The relevance is an integer, as the \<open>predicted_relevance INTEGER\<close> column
  that receives it.
\<close>

record hashtag =
  tag :: ustring
  relevance :: int
  popularity :: ustring
  reason :: ustring

text \<open>The literal \<open>'[\<checkmark> Data:'\<close> (the second code point is U+2713).\<close>

definition data_marker :: ustring where
  "data_marker = [91, 10003, 32, 68, 97, 116, 97, 58]"

text \<open>
  \<open>avg_relevance\<close> is a float quotient, \<open>int(...)\<close> truncates it toward zero. The exact
  value \<open>(sum - 50 n) / (2 n)\<close> is an integer or at least \<open>1 / (2 n)\<close> away from one, far
  more than the float rounding error for relevances in 0..100, so the truncation of the
  exact value is the truncation the program computes.
\<close>

definition score_hashtag_strategy :: "hashtag list \<Rightarrow> platform \<Rightarrow> int" where
  "score_hashtag_strategy hashtags pf =
     (if hashtags = [] then 0
      else
        let count = int (length hashtags);
            score = 50;
            score =
              (if pf = Twitter then
                 (if 1 \<le> count \<and> count \<le> 3 then score + 25 else score - 15)
               else
                 (if 8 \<le> count \<and> count \<le> 15 then score + 25
                  else if 5 \<le> count \<and> count < 8 then score + 15
                  else score));
            avg_relevance = rat_of_int (sum_list (map relevance hashtags)) / rat_of_int count;
            score = score + py_int ((avg_relevance - 50) / 2);
            data_backed = int (length (filter (\<lambda>h. contains data_marker (reason h)) hashtags));
            score = score + min 15 (data_backed * 5)
        in min 100 (max 0 score))"

definition timely_keywords :: "ustring list" where
  "timely_keywords = map ascii [''new'', ''now'', ''today'', ''breaking'', ''update'', ''trending'']"

text \<open>\<open>weekday\<close> is \<open>datetime.now().weekday()\<close>: 0 for Monday to 6 for Sunday.\<close>

definition score_timing :: "pylib \<Rightarrow> nat \<Rightarrow> ustring \<Rightarrow> int" where
  "score_timing L weekday text =
     (let score = 60;
          score = (if \<exists>keyword \<in> set timely_keywords. contains keyword (py_lower L text)
                   then score + 20 else score);
          score = (if weekday \<in> set [1, 2, 3] then score + 10 else score)
      in min 100 score)"

definition calculate_data_confidence :: "insights \<Rightarrow> int" where
  "calculate_data_confidence ins =
     (if tracked_posts ins = 0 then 30
      else if tracked_posts ins < 10 then 50
      else if tracked_posts ins < 50 then 75
      else 95)"

record scores =
  content_quality :: int
  hashtag_strategy :: int
  timing_relevance :: int
  data_confidence :: int
  engagement_potential :: int

text \<open>
  The weighted sum is a float expression: four products with the constants 0.35, 0.35,
  0.20, 0.10 (none of them a binary fraction) and three additions, each rounded. Its value
  is the exact sum plus a rounding error far below \<open>1 / 1000000\<close>. That error is the
  parameter \<open>fperr\<close>; it matters only where the exact sum is an integer.
\<close>

definition weighted_sum :: "int \<Rightarrow> int \<Rightarrow> int \<Rightarrow> int \<Rightarrow> rat" where
  "weighted_sum cq hs tr dc =
     rat_of_int cq * (35 / 100) + rat_of_int hs * (35 / 100)
       + rat_of_int tr * (20 / 100) + rat_of_int dc * (10 / 100)"

definition score_with_learning ::
    "pylib \<Rightarrow> rat \<Rightarrow> nat \<Rightarrow> ustring \<Rightarrow> hashtag list \<Rightarrow> platform \<Rightarrow> insights
      \<Rightarrow> py_error + scores" where
  "score_with_learning L fperr weekday text hashtags pf ins =
     (case score_content_quality_learned L text pf ins of
        Inl e \<Rightarrow> Inl e
      | Inr cq \<Rightarrow>
          (let hs = score_hashtag_strategy hashtags pf;
               tr = score_timing L weekday text;
               dc = calculate_data_confidence ins
           in Inr \<lparr>content_quality = cq, hashtag_strategy = hs, timing_relevance = tr,
                   data_confidence = dc,
                   engagement_potential = py_int (weighted_sum cq hs tr dc + fperr)\<rparr>))"

section \<open>The store\<close>

text \<open>
  The four tables of \<open>init_database\<close>, each a list of rows in insertion order. The
  surrogate \<open>id\<close> columns of \<open>hashtags\<close> and \<open>performance\<close> are left out: no statement
  of the program reads them. Timestamps are natural numbers. The \<open>platform\<close> column is
  text in the schema; the two writers (the select box of the analysis tab and the importer's
  check) store only \<open>'Twitter'\<close> and \<open>'Instagram'\<close>.
\<close>

record post =
  post_id :: int
  post_platform :: platform
  content :: ustring
  created_at :: nat
  content_length :: int
  has_question :: bool
  has_emoji :: bool
  predicted_score :: int

record hashtag_row =
  h_post_id :: int
  h_hashtag :: ustring
  predicted_relevance :: int

record perf_row =
  perf_post_id :: int
  likes :: int
  comments :: int
  shares :: int
  impressions :: int
  engagement_rate :: rat
  updated_at :: nat

text \<open>\<open>hashtag_stats\<close>: the column \<open>hashtag\<close> alone is declared \<open>PRIMARY KEY\<close>.\<close>

record stat_row =
  s_hashtag :: ustring
  s_platform :: platform
  total_uses :: int
  avg_engagement :: rat
  success_rate :: rat
  last_used :: nat

record store =
  posts :: "post list"
  hashtags :: "hashtag_row list"
  performance :: "perf_row list"
  hashtag_stats :: "stat_row list"

definition empty_store :: store where
  "empty_store = \<lparr>posts = [], hashtags = [], performance = [], hashtag_stats = []\<rparr>"

text \<open>
  The statement \<open>INSERT INTO hashtag_stats ... VALUES (?, ?, 1, ?, now) ON CONFLICT(hashtag)
  DO UPDATE SET total_uses = total_uses + 1, avg_engagement = (avg_engagement *
  (total_uses - 1) + ?) / total_uses, last_used = now\<close>. The conflict target is the
  hashtag; the \<open>SET\<close> list does not name \<open>platform\<close>. In the \<open>SET\<close> expressions a column
  name is the value of the row as it was before the statement (SQLite evaluates all of them
  before it assigns any), so \<open>total_uses\<close> on the right of \<open>avg_engagement\<close> is the count
  before the increment. \<open>success_rate\<close> is not in the column list and takes its default 0.
  A row made by this statement has \<open>total_uses \<ge> 1\<close>, so the division is by a non-zero
  count.
\<close>

definition on_conflict_update :: "rat \<Rightarrow> nat \<Rightarrow> stat_row \<Rightarrow> stat_row" where
  "on_conflict_update rate now r =
     r\<lparr>total_uses := total_uses r + 1,
       avg_engagement :=
         (avg_engagement r * rat_of_int (total_uses r - 1) + rate) / rat_of_int (total_uses r),
       last_used := now\<rparr>"

definition upsert_hashtag_stat ::
    "ustring \<Rightarrow> platform \<Rightarrow> rat \<Rightarrow> nat \<Rightarrow> stat_row list \<Rightarrow> stat_row list" where
  "upsert_hashtag_stat h pf rate now rows =
     (if \<exists>r \<in> set rows. s_hashtag r = h
      then map (\<lambda>r. if s_hashtag r = h then on_conflict_update rate now r else r) rows
      else rows @ [\<lparr>s_hashtag = h, s_platform = pf, total_uses = 1, avg_engagement = rate,
                     success_rate = 0, last_used = now\<rparr>])"

text \<open>
  \<open>INSERT OR REPLACE INTO performance\<close>: \<open>post_id\<close> is \<open>UNIQUE\<close>, so a row with the same
  post is deleted and the new row is added.
\<close>

definition replace_performance :: "perf_row \<Rightarrow> perf_row list \<Rightarrow> perf_row list" where
  "replace_performance row rows =
     filter (\<lambda>r. perf_post_id r \<noteq> perf_post_id row) rows @ [row]"

definition compute_engagement_rate :: "int \<Rightarrow> int \<Rightarrow> int \<Rightarrow> int \<Rightarrow> rat" where
  "compute_engagement_rate l c s i =
     (if i > 0 then (rat_of_int (l + c + s) / rat_of_int i) * 100 else 0)"

text \<open>
  \<open>update_actual_performance\<close>. \<open>cursor.fetchone()[0]\<close> raises \<open>TypeError\<close> when the post
  does not exist; \<open>commit\<close> is then not reached and the open transaction is dropped with the
  connection, so an error leaves the store as it was (the result is the error alone).
\<close>

definition update_actual_performance ::
    "store \<Rightarrow> nat \<Rightarrow> int \<Rightarrow> int \<Rightarrow> int \<Rightarrow> int \<Rightarrow> int \<Rightarrow> py_error + store" where
  "update_actual_performance st now pid l c s i =
     (let rate = compute_engagement_rate l c s i;
          perf = replace_performance
                   \<lparr>perf_post_id = pid, likes = l, comments = c, shares = s, impressions = i,
                    engagement_rate = rate, updated_at = now\<rparr> (performance st);
          tags = map h_hashtag (filter (\<lambda>h. h_post_id h = pid) (hashtags st))
      in case find (\<lambda>p. post_id p = pid) (posts st) of
           None \<Rightarrow> Inl TypeError
         | Some p \<Rightarrow>
             Inr (st\<lparr>performance := perf,
                      hashtag_stats :=
                        fold (\<lambda>h rows. upsert_hashtag_stat h (post_platform p) rate now rows)
                          tags (hashtag_stats st)\<rparr>))"




text \<open>A sequence of outcome reports \<open>(post, likes, comments, shares, impressions)\<close>, made
  one after the other; an error stops the sequence.\<close>

fun report_all :: "store \<Rightarrow> nat \<Rightarrow> (int \<times> int \<times> int \<times> int \<times> int) list \<Rightarrow> py_error + store" where
  "report_all st now [] = Inr st"
| "report_all st now ((pid, l, c, s, i) # rest) =
     (case update_actual_performance st now pid l c s i of
        Inl e \<Rightarrow> Inl e
      | Inr st' \<Rightarrow> report_all st' now rest)"

text \<open>The aggregate stored for a hashtag: use count and running average of its rows.\<close>

definition aggregate_of :: "store \<Rightarrow> ustring \<Rightarrow> (int \<times> rat) list" where
  "aggregate_of st h =
     map (\<lambda>r. (total_uses r, avg_engagement r)) (filter (\<lambda>r. s_hashtag r = h) (hashtag_stats st))"


text \<open>
  \<open>LIMIT ?\<close> with a negative bound returns every row; the slice \<open>xs[:k]\<close> with a
  negative \<open>k\<close> drops the last \<open>-k\<close> elements.
\<close>

definition sql_limit :: "int \<Rightarrow> 'a list \<Rightarrow> 'a list" where
  "sql_limit k xs = (if k < 0 then xs else take (nat k) xs)"




text \<open>
  \<open>get_top_hashtags\<close>: rows of the platform with at least two uses, best average first.
  Rows with equal averages come in an order SQLite does not fix; the model keeps table
  order among them (a stable sort), here and in the other \<open>ORDER BY\<close> clauses.
\<close>

record top_hashtag =
  th_hashtag :: ustring
  th_total_uses :: int
  th_avg_engagement :: rat
  th_success_rate :: rat

definition get_top_hashtags :: "store \<Rightarrow> platform \<Rightarrow> int \<Rightarrow> top_hashtag list" where
  "get_top_hashtags st pf limit =
     map (\<lambda>r. \<lparr>th_hashtag = s_hashtag r, th_total_uses = total_uses r,
                th_avg_engagement = avg_engagement r, th_success_rate = success_rate r\<rparr>)
       (sql_limit limit
          (sort_key (\<lambda>r. - avg_engagement r)
             (filter (\<lambda>r. s_platform r = pf \<and> total_uses r \<ge> 2) (hashtag_stats st))))"


subsection \<open>Similar successful posts\<close>

text \<open>
  \<open>re.findall(r'\b[a-zA-Z]{n,}\b', s)\<close>. A match starts and ends at a word boundary and
  holds ASCII letters only, so it is a whole maximal run of word characters, all of them
  ASCII letters, at least \<open>n\<close> long; the matches are returned in text order.
\<close>

fun word_runs :: "(nat \<Rightarrow> bool) \<Rightarrow> ustring \<Rightarrow> ustring \<Rightarrow> ustring list" where
  "word_runs isw cur [] = (if cur = [] then [] else [cur])"
| "word_runs isw cur (c # cs) =
     (if isw c then word_runs isw (cur @ [c]) cs
      else (if cur = [] then [] else [cur]) @ word_runs isw [] cs)"

definition findall_letters :: "pylib \<Rightarrow> nat \<Rightarrow> ustring \<Rightarrow> ustring list" where
  "findall_letters L n s =
     filter (\<lambda>w. n \<le> length w \<and> list_all is_ascii_letter w) (word_runs (is_word_char L) [] s)"







section \<open>The hashtag proposer\<close>

definition common_words :: "ustring list" where
  "common_words = map ascii
     [''this'', ''that'', ''with'', ''from'', ''have'', ''been'', ''were'', ''their'',
      ''would'', ''about'', ''when'', ''just'', ''like'', ''some'', ''what'', ''your'',
      ''will'', ''they'', ''them'', ''into'', ''than'', ''more'', ''very'', ''can'']"

definition generic_tags :: "ustring list" where
  "generic_tags = map ascii
     [''content'', ''socialmedia'', ''marketing'', ''community'', ''growth'',
      ''tips'', ''inspiration'', ''motivation'', ''business'', ''success'',
      ''trending'', ''viral'', ''engage'', ''share'', ''follow'']"

definition target_count :: "platform \<Rightarrow> nat" where
  "target_count pf = (if pf = Twitter then 3 else 12)"

definition keyword_item :: "nat \<Rightarrow> ustring \<Rightarrow> hashtag" where
  "keyword_item i word =
     \<lparr>tag = word, relevance = 85 - int i * 5, popularity = ascii ''Medium'',
      reason = ascii ''Extracted from content keywords''\<rparr>"

definition proven_item :: "pylib \<Rightarrow> top_hashtag \<Rightarrow> hashtag" where
  "proven_item L t =
     \<lparr>tag = th_hashtag t, relevance = 90, popularity = ascii ''High'',
      reason = ascii ''Proven performer: '' @ fmt1 L (th_avg_engagement t) @ ascii ''% avg''\<rparr>"

definition generic_item :: "ustring \<Rightarrow> hashtag" where
  "generic_item g =
     \<lparr>tag = g, relevance = 70, popularity = ascii ''Medium'',
      reason = ascii ''General engagement hashtag''\<rparr>"

text \<open>The three loops of \<open>_fallback_hashtags\<close>; each leaves as soon as the list is full.\<close>

fun add_keywords :: "nat \<Rightarrow> (nat \<times> ustring) list \<Rightarrow> hashtag list \<Rightarrow> hashtag list" where
  "add_keywords n [] hs = hs"
| "add_keywords n ((i, word) # rest) hs =
     (if length hs \<ge> n then hs else add_keywords n rest (hs @ [keyword_item i word]))"

fun add_proven :: "pylib \<Rightarrow> nat \<Rightarrow> top_hashtag list \<Rightarrow> hashtag list \<Rightarrow> hashtag list" where
  "add_proven L n [] hs = hs"
| "add_proven L n (t # ts) hs =
     (if length hs \<ge> n then hs
      else if \<not> (\<exists>h \<in> set hs. py_lower L (tag h) = py_lower L (th_hashtag t))
      then add_proven L n ts (hs @ [proven_item L t])
      else add_proven L n ts hs)"

fun add_generic :: "pylib \<Rightarrow> nat \<Rightarrow> ustring list \<Rightarrow> hashtag list \<Rightarrow> hashtag list" where
  "add_generic L n [] hs = hs"
| "add_generic L n (g # gs) hs =
     (if length hs \<ge> n then hs
      else if \<not> (\<exists>h \<in> set hs. py_lower L (tag h) = g)
      then add_generic L n gs (hs @ [generic_item g])
      else add_generic L n gs hs)"

definition fallback_hashtags :: "pylib \<Rightarrow> ustring \<Rightarrow> platform \<Rightarrow> top_hashtag list \<Rightarrow> hashtag list" where
  "fallback_hashtags L text pf top_hashtags =
     (let words = findall_letters L 3 (py_lower L text);
          keywords = filter (\<lambda>w. w \<notin> set common_words) words;
          target = target_count pf;
          hs = add_keywords target (enumerate 0 (take target keywords)) [];
          hs = (if length hs < target \<and> top_hashtags \<noteq> []
                then add_proven L target top_hashtags hs else hs);
          hs = (if length hs < target then add_generic L target generic_tags hs else hs)
      in take target hs)"

text \<open>
  What comes back from the text-generation service, after the code fence is stripped, the
  first bracketed list is searched and \<open>json.loads\<close> has run: no usable response
  (\<open>None\<close> or the empty string), a response in which no list is found or whose decoding or
  later use raises (the \<open>except\<close> clause catches it), or a decoded list of records.
\<close>

datatype oracle_reply = NoResponse | Undecodable | Decoded "hashtag list"

definition data_note :: "pylib \<Rightarrow> top_hashtag \<Rightarrow> ustring" where
  "data_note L t =
     [32] @ data_marker @ [32] @ fmt1 L (th_avg_engagement t) @ ascii ''% avg]''"

definition boost :: "pylib \<Rightarrow> top_hashtag list \<Rightarrow> hashtag \<Rightarrow> hashtag" where
  "boost L top_hashtags h =
     fold (\<lambda>top_tag h.
             if py_lower L (tag h) = py_lower L (th_hashtag top_tag)
             then h\<lparr>relevance := min 100 (relevance h + 10),
                    reason := reason h @ data_note L top_tag\<rparr>
             else h)
          top_hashtags h"

text \<open>
  \<open>_generate_hashtags_with_learning\<close>. The similar posts only enter the prompt, so they
  act through the reply alone.
\<close>

definition generate_hashtags_with_learning ::
    "pylib \<Rightarrow> oracle_reply \<Rightarrow> ustring \<Rightarrow> platform \<Rightarrow> top_hashtag list \<Rightarrow> hashtag list" where
  "generate_hashtags_with_learning L reply text pf top_hashtags =
     (let num_hashtags = target_count pf
      in case reply of
           Decoded hs \<Rightarrow>
             if length hs < num_hashtags then fallback_hashtags L text pf top_hashtags
             else take num_hashtags (map (boost L top_hashtags) hs)
         | _ \<Rightarrow> fallback_hashtags L text pf top_hashtags)"

section \<open>The specification's formulas\<close>

text \<open>
  The formulas below follow the words of the specification, not the code. They are what
  the program's functions are compared with.
\<close>

text \<open>Content quality as specified: the first-character bonus needs a first character,
  and any optimal length that is present counts as known.\<close>

definition claimed_content_quality :: "pylib \<Rightarrow> ustring \<Rightarrow> platform \<Rightarrow> insights \<Rightarrow> int" where
  "claimed_content_quality L text pf ins =
     min 100 (max 0
       (50
        + (case optimal_length ins of
             Some opt \<Rightarrow>
               if \<bar>int (length text) - opt\<bar> < 50 then 25
               else if \<bar>int (length text) - opt\<bar> < 100 then 15 else 5
           | None \<Rightarrow>
               if pf = Twitter \<and> int (length text) \<in> {100..280}
                  \<or> pf = Instagram \<and> int (length text) \<in> {138..2200} then 20 else 0)
        + (if 63 \<in> set text then 10 else 0)
        + (if set emoji_set \<inter> set text \<noteq> {} then 10 else 0)
        + (case text of [] \<Rightarrow> 0 | c # _ \<Rightarrow> if py_isupper L c then 5 else 0)))"

text \<open>Hashtag strategy as specified, with the mathematical floor of the relevance term.\<close>

definition claimed_hashtag_strategy :: "hashtag list \<Rightarrow> platform \<Rightarrow> int" where
  "claimed_hashtag_strategy hs pf =
     (if hs = [] then 0
      else
        let n = int (length hs);
            mean = rat_of_int (sum_list (map relevance hs)) / rat_of_int n;
            band = (if pf = Twitter then (if n \<in> {1..3} then 25 else - 15)
                    else if n \<in> {8..15} then 25 else if n \<in> {5..7} then 15 else 0);
            bonus = min 15 (5 * int (length (filter (\<lambda>h. contains data_marker (reason h)) hs)))
        in min 100 (max 0 (50 + band + \<lfloor>(mean - 50) / 2\<rfloor> + bonus)))"

text \<open>The composite score as specified: the weighted sum rounded to the nearest integer
  (a half is rounded up, away from zero for these non-negative sums).\<close>

definition claimed_engagement_potential :: "int \<Rightarrow> int \<Rightarrow> int \<Rightarrow> int \<Rightarrow> int" where
  "claimed_engagement_potential cq hs tr dc = \<lfloor>weighted_sum cq hs tr dc + 1 / 2\<rfloor>"


section \<open>Concrete inputs\<close>

text \<open>
  A runtime for examples with ASCII text: code points beyond ASCII are caseless and are not
  word characters, and every number is printed as \<open>0.0\<close>.
\<close>

definition ascii_only_lib :: pylib where
  "ascii_only_lib =
     \<lparr>lower_ext = map ascii_lower, word_ext = (\<lambda>c. False), upper_ext = (\<lambda>c. False),
      fmt1 = (\<lambda>x. ascii ''0.0'')\<rparr>"

definition no_data :: insights where
  "no_data = \<lparr>total_posts = 0, tracked_posts = 0, ins_avg_engagement = 0,
               best_hashtag = None, optimal_length = None\<rparr>"

definition plain_tag :: "string \<Rightarrow> int \<Rightarrow> hashtag" where
  "plain_tag name rel =
     \<lparr>tag = ascii name, relevance = rel, popularity = ascii ''Medium'',
      reason = ascii ''why this works''\<rparr>"

text \<open>Stores for examples: posts with the hashtag \<open>ai\<close> and no outcome yet.\<close>

definition example_post :: "int \<Rightarrow> platform \<Rightarrow> string \<Rightarrow> post" where
  "example_post n pf body =
     \<lparr>post_id = n, post_platform = pf, content = ascii body, created_at = 0,
      content_length = int (length body), has_question = False, has_emoji = False,
      predicted_score = 60\<rparr>"

definition ai_tag :: "int \<Rightarrow> hashtag_row" where
  "ai_tag n = \<lparr>h_post_id = n, h_hashtag = ascii ''ai'', predicted_relevance = 85\<rparr>"


definition two_post_store :: store where
  "two_post_store =
     \<lparr>posts = [example_post 1 Twitter ''Hello'', example_post 2 Twitter ''World''],
      hashtags = [ai_tag 1, ai_tag 2], performance = [], hashtag_stats = []\<rparr>"

text \<open>A store in which the hashtag \<open>ai\<close> already has a row, made by an Instagram post, and
  a Twitter post uses the same hashtag.\<close>

definition shared_tag_store :: store where
  "shared_tag_store =
     \<lparr>posts = [example_post 1 Twitter ''Hello''], hashtags = [ai_tag 1],
      performance = [],
      hashtag_stats = [\<lparr>s_hashtag = ascii ''ai'', s_platform = Instagram, total_uses = 1,
                        avg_engagement = 4, success_rate = 0, last_used = 0\<rparr>]\<rparr>"





section \<open>Properties of the scorer\<close>

lemma content_quality_cons:
  "score_content_quality_learned L (c # cs) pf ins =
     Inr (50
      + (case optimal_length ins of
           None \<Rightarrow> canonical_range_points (int (length (c # cs))) pf
         | Some opt \<Rightarrow>
             if opt = 0 then canonical_range_points (int (length (c # cs))) pf
             else learned_length_points (int (length (c # cs))) opt)
      + (if 63 \<in> set (c # cs) then 10 else 0)
      + (if set emoji_set \<inter> set (c # cs) \<noteq> {} then 10 else 0)
      + (if py_isupper L c then 5 else 0))"
proof -
  define t where "t = c # cs"
  define lp where "lp = (case optimal_length ins of
               Some optimal \<Rightarrow>
                 if optimal \<noteq> 0 then learned_length_points (int (length t)) optimal
                 else canonical_range_points (int (length t)) pf
             | None \<Rightarrow> canonical_range_points (int (length t)) pf)"
  have lp_alt: "lp = (case optimal_length ins of
           None \<Rightarrow> canonical_range_points (int (length t)) pf
         | Some opt \<Rightarrow>
             if opt = 0 then canonical_range_points (int (length t)) pf
             else learned_length_points (int (length t)) opt)"
    by (simp add: lp_def split: option.split)
  have lpb: "0 \<le> lp \<and> lp \<le> 25"
    by (simp add: lp_def canonical_range_points_def learned_length_points_def Let_def
        split: option.split)
  define q :: int where "q = (if 63 \<in> set t then 10 else 0)"
  define em :: int where "em = (if set emoji_set \<inter> set t \<noteq> {} then 10 else 0)"
  define up :: int where "up = (if py_isupper L c then 5 else 0)"
  have e: "(\<exists>emoji \<in> set emoji_set. emoji \<in> set t) = (set emoji_set \<inter> set t \<noteq> {})"
    by blast
  have qb: "0 \<le> q \<and> q \<le> 10" "0 \<le> em \<and> em \<le> 10" "0 \<le> up \<and> up \<le> 5"
    by (simp_all add: q_def em_def up_def)
  have r: "\<And>b (x::int) k. (if b then x + k else x) = x + (if b then k else 0)"
    by simp
  have "score_content_quality_learned L t pf ins = Inr (min 100 (max 0 (50 + lp + q + em + up)))"
    unfolding score_content_quality_learned_def Let_def e lp_def[symmetric] question_mark_def
      q_def em_def up_def
    by (simp only: t_def list.case r)
  also have "min 100 (max 0 (50 + lp + q + em + up)) = 50 + lp + q + em + up"
    using lpb qb by linarith
  finally show ?thesis
    unfolding lp_alt q_def em_def up_def t_def .
qed

lemma content_quality_empty:
  "score_content_quality_learned L [] pf ins = Inl IndexError"
  by (simp add: score_content_quality_learned_def Let_def)

lemma content_quality_range:
  assumes "score_content_quality_learned L t pf ins = Inr v"
  shows "0 \<le> v \<and> v \<le> 100"
proof (cases t)
  case Nil
  with assms show ?thesis by (simp add: content_quality_empty)
next
  case (Cons c cs)
  have "v = min 100 (max 0 v)"
    using assms unfolding Cons score_content_quality_learned_def Let_def
    by (simp only: list.case sum.inject min.idem max.idem min_max_distrib2)
  then show ?thesis by linarith
qed

text \<open>
  C10. The scorer of content quality returns a score only for a non-empty text: on the
  empty text the first-character test reads index 0, which does not exist, and the result
  is the error \<open>IndexError\<close>; on every other text the result is a score between 0 and 100.
  The composite scorer passes the error on, so no score record is produced for the empty text.
\<close>

theorem content_quality_defined_iff_nonempty:
  "(score_content_quality_learned L t pf ins = Inl IndexError) = (t = [])
   \<and> ((\<exists>v. score_content_quality_learned L t pf ins = Inr v \<and> 0 \<le> v \<and> v \<le> 100) = (t \<noteq> []))
   \<and> score_with_learning L fperr weekday [] tags pf ins = Inl IndexError"
proof (cases t)
  case Nil
  then show ?thesis by (simp add: content_quality_empty score_with_learning_def)
next
  case (Cons c cs)
  obtain v where v: "score_content_quality_learned L t pf ins = Inr v"
    unfolding Cons content_quality_cons by blast
  from content_quality_range[OF v] v Cons show ?thesis
    by (simp add: content_quality_empty score_with_learning_def)
qed

theorem content_quality_defined_iff_nonempty_witness:
  "score_content_quality_learned ascii_only_lib [] Twitter no_data = Inl IndexError
   \<and> (\<exists>v. score_content_quality_learned ascii_only_lib [72, 105] Twitter no_data = Inr v
          \<and> 0 \<le> v \<and> v \<le> 100)"
  using content_quality_defined_iff_nonempty [of ascii_only_lib "[]" Twitter no_data]
    content_quality_defined_iff_nonempty [of ascii_only_lib "[72, 105]" Twitter no_data]
  by simp

lemma ascii_hello_you: "ascii ''Hello you'' = [72, 101, 108, 108, 111, 32, 121, 111, 117]"
  by (simp add: ascii_def)

text \<open>
  C6 (amended). For every non-empty text the content-quality score is \<open>50\<close>, plus the
  length points, plus 10 for a question mark, plus 10 for a code point of the emoji
  literal, plus 5 if the first code point is uppercase. The length points are 25, 15 or 5
  for a deviation below 50, below 100, or larger from an optimal length that is present
  and not zero (so a deviation of exactly 50 gives 15), and otherwise 20 inside the
  platform's range (Twitter 100 to 280, Instagram 138 to 2200) and 0 outside. The sum is
  always between 50 and 100, so the final clamp to 0..100 leaves it as it is.
\<close>

theorem content_quality_formula:
  assumes "t \<noteq> []"
  shows "score_content_quality_learned L t pf ins =
    Inr (50
      + (case optimal_length ins of
           None \<Rightarrow> (if pf = Twitter \<and> int (length t) \<in> {100..280}
                      \<or> pf = Instagram \<and> int (length t) \<in> {138..2200} then 20 else 0)
         | Some opt \<Rightarrow>
             if opt = 0 then
               (if pf = Twitter \<and> int (length t) \<in> {100..280}
                   \<or> pf = Instagram \<and> int (length t) \<in> {138..2200} then 20 else 0)
             else if \<bar>int (length t) - opt\<bar> < 50 then 25
             else if \<bar>int (length t) - opt\<bar> < 100 then 15 else 5)
      + (if 63 \<in> set t then 10 else 0)
      + (if set emoji_set \<inter> set t \<noteq> {} then 10 else 0)
      + (if py_isupper L (hd t) then 5 else 0))"
proof -
  obtain c cs where t: "t = c # cs" using assms by (cases t) auto
  have r: "\<And>n. canonical_range_points n pf =
      (if pf = Twitter \<and> n \<in> {100..280} \<or> pf = Instagram \<and> n \<in> {138..2200} then 20 else 0)"
    by (simp add: canonical_range_points_def)
  have l: "\<And>n opt. learned_length_points n opt =
      (if \<bar>n - opt\<bar> < 50 then 25 else if \<bar>n - opt\<bar> < 100 then 15 else 5)"
    by (simp add: learned_length_points_def Let_def)
  have h: "hd t = c" by (simp add: t)
  show ?thesis
    unfolding h unfolding t content_quality_cons r l ..
qed

theorem content_quality_formula_witness:
  "ascii ''Hello you'' \<noteq> []
   \<and> score_content_quality_learned ascii_only_lib (ascii ''Hello you'') Instagram
        (no_data\<lparr>optimal_length := Some 59\<rparr>) = Inr 70"
  using content_quality_formula [of "ascii ''Hello you''" ascii_only_lib Instagram
      "no_data\<lparr>optimal_length := Some 59\<rparr>"]
  by (simp add: ascii_hello_you no_data_def emoji_set_def py_isupper_def is_ascii_upper_def)

text \<open>
  The claim as written fails at two inputs. For the empty text the specified formula gives
  50, the program raises. For an optimal length of 0 the specified formula treats the
  length as known (a 9-character text deviates by 9, 25 points), the program treats it as
  absent (9 characters are outside Twitter's range, no points).
\<close>

theorem content_quality_counterexample:
  "score_content_quality_learned ascii_only_lib [] Twitter no_data = Inl IndexError
   \<and> claimed_content_quality ascii_only_lib [] Twitter no_data = 50
   \<and> score_content_quality_learned ascii_only_lib (ascii ''Hello you'') Twitter
        (no_data\<lparr>optimal_length := Some 0\<rparr>) = Inr 55
   \<and> claimed_content_quality ascii_only_lib (ascii ''Hello you'') Twitter
        (no_data\<lparr>optimal_length := Some 0\<rparr>) = 80"
  by (simp add: ascii_hello_you content_quality_cons content_quality_empty
      claimed_content_quality_def no_data_def canonical_range_points_def
      emoji_set_def py_isupper_def is_ascii_upper_def)

lemma py_int_of_quotient:
  assumes "0 < b"
  shows "py_int (rat_of_int a / rat_of_int b) = (if 0 \<le> a then a div b else - ((- a) div b))"
proof (cases "0 \<le> a")
  case True
  then have "0 \<le> rat_of_int a / rat_of_int b" using assms by simp
  then show ?thesis using True by (simp add: py_int_def floor_divide_of_int_eq)
next
  case False
  then have neg: "rat_of_int a / rat_of_int b < 0" using assms by (simp add: divide_neg_pos)
  have "\<lceil>rat_of_int a / rat_of_int b\<rceil> = - \<lfloor>- (rat_of_int a / rat_of_int b)\<rfloor>"
    by (simp add: ceiling_def)
  also have "- (rat_of_int a / rat_of_int b) = rat_of_int (- a) / rat_of_int b" by simp
  also have "\<lfloor>rat_of_int (- a) / rat_of_int b\<rfloor> = (- a) div b" by (rule floor_divide_of_int_eq)
  finally show ?thesis using False neg by (simp add: py_int_def)
qed

lemma relevance_term:
  assumes "hs \<noteq> []"
  shows "py_int ((rat_of_int (sum_list (map relevance hs)) / rat_of_int (int (length hs)) - 50) / 2)
    = (if 50 * int (length hs) \<le> sum_list (map relevance hs)
       then (sum_list (map relevance hs) - 50 * int (length hs)) div (2 * int (length hs))
       else - ((50 * int (length hs) - sum_list (map relevance hs)) div (2 * int (length hs))))"
proof -
  define S where "S = sum_list (map relevance hs)"
  define n where "n = int (length hs)"
  have n: "0 < n" using assms by (simp add: n_def)
  have nz: "rat_of_int n \<noteq> 0" using n by simp
  have "rat_of_int (S - 50 * n) / rat_of_int (2 * n)
      = (rat_of_int S - 50 * rat_of_int n) / (2 * rat_of_int n)"
    by simp
  also have "\<dots> = (rat_of_int S / rat_of_int n - 50) / 2"
    using nz by (simp add: diff_divide_distrib)
  finally have eq: "(rat_of_int S / rat_of_int n - 50) / 2
      = rat_of_int (S - 50 * n) / rat_of_int (2 * n)"
    by simp
  have "py_int (rat_of_int (S - 50 * n) / rat_of_int (2 * n)) =
      (if 0 \<le> S - 50 * n then (S - 50 * n) div (2 * n) else - ((- (S - 50 * n)) div (2 * n)))"
    by (rule py_int_of_quotient) (use n in simp)
  also have "(0 \<le> S - 50 * n) = (50 * n \<le> S)" by auto
  also have "- (S - 50 * n) = 50 * n - S" by simp
  finally have "py_int ((rat_of_int S / rat_of_int n - 50) / 2) =
      (if 50 * n \<le> S then (S - 50 * n) div (2 * n) else - ((50 * n - S) div (2 * n)))"
    by (simp only: eq)
  then show ?thesis unfolding S_def n_def .
qed

lemma hashtag_strategy_empty: "score_hashtag_strategy [] pf = 0"
  by (simp add: score_hashtag_strategy_def)

lemma hashtag_strategy_nonempty:
  assumes ne: "hs \<noteq> []"
  shows "score_hashtag_strategy hs pf =
       (let n = int (length hs);
            S = sum_list (map relevance hs);
            band = (if pf = Twitter then (if n \<in> {1..3} then 25 else - 15)
                    else if n \<in> {8..15} then 25 else if n \<in> {5..7} then 15 else 0);
            rel = (if 50 * n \<le> S then (S - 50 * n) div (2 * n) else - ((50 * n - S) div (2 * n)));
            bonus = min 15 (5 * int (length (filter (\<lambda>h. contains data_marker (reason h)) hs)))
        in min 100 (max 0 (50 + band + rel + bonus)))"
proof -
  define R where "R = py_int ((rat_of_int (sum_list (map relevance hs))
                        / rat_of_int (int (length hs)) - 50) / 2)"
  define B where "B = min 15 (int (length (filter (\<lambda>h. contains data_marker (reason h)) hs)) * 5)"
  define n where "n = int (length hs)"
  have 1: "score_hashtag_strategy hs pf =
      min 100 (max 0 ((if pf = Twitter then (if 1 \<le> n \<and> n \<le> 3 then 50 + 25 else 50 - 15)
                       else (if 8 \<le> n \<and> n \<le> 15 then 50 + 25
                             else if 5 \<le> n \<and> n < 8 then 50 + 15 else 50)) + R + B))"
    unfolding score_hashtag_strategy_def Let_def R_def B_def n_def using ne by (simp only: if_False)
  have 2: "(if pf = Twitter then (if 1 \<le> n \<and> n \<le> 3 then 50 + 25 else 50 - 15)
            else (if 8 \<le> n \<and> n \<le> 15 then 50 + 25
                  else if 5 \<le> n \<and> n < 8 then 50 + 15 else 50))
         = 50 + (if pf = Twitter then (if n \<in> {1..3} then 25 else - 15)
                    else if n \<in> {8..15} then 25 else if n \<in> {5..7} then 15 else (0::int))"
    by (cases pf) auto
  have R: "R = (if 50 * n \<le> sum_list (map relevance hs)
       then (sum_list (map relevance hs) - 50 * n) div (2 * n)
       else - ((50 * n - sum_list (map relevance hs)) div (2 * n)))"
    unfolding R_def n_def by (rule relevance_term[OF ne])
  have B: "B = min 15 (5 * int (length (filter (\<lambda>h. contains data_marker (reason h)) hs)))"
    unfolding B_def by (simp only: mult.commute)
  show ?thesis
    unfolding Let_def using 1[unfolded 2 R B, unfolded n_def] .
qed

lemma hashtag_strategy_range: "0 \<le> score_hashtag_strategy hs pf \<and> score_hashtag_strategy hs pf \<le> 100"
proof (cases "hs = []")
  case True
  then show ?thesis by (simp add: hashtag_strategy_empty)
next
  case False
  show ?thesis unfolding hashtag_strategy_nonempty[OF False] Let_def by linarith
qed

text \<open>
  C5 (amended). The empty hashtag list scores 0. A non-empty list of \<open>n\<close> hashtags with
  relevance sum \<open>S\<close> scores the clamp to 0..100 of: 50, plus the band points (Twitter: 25 for
  1 to 3 hashtags, -15 otherwise; Instagram: 25 for 8 to 15, 15 for 5 to 7, else 0), plus
  \<open>(mean - 50) / 2\<close> truncated toward zero, plus \<open>min 15 (5 * k)\<close> for \<open>k\<close> hashtags whose
  reason holds the data marker. The truncated term is written in integers: for a mean of
  at least 50 it is the floor \<open>(S - 50 n) div (2 n)\<close>, for a mean below 50 it is
  \<open>- ((50 n - S) div (2 n))\<close>, the ceiling. A Twitter list with relevances 95, 90, 85 and
  no data-backed hashtag scores 95.
\<close>

theorem hashtag_strategy_formula:
  "score_hashtag_strategy [] pf = 0 \<and>
   (hs \<noteq> [] \<longrightarrow>
     score_hashtag_strategy hs pf =
       (let n = int (length hs);
            S = sum_list (map relevance hs);
            band = (if pf = Twitter then (if n \<in> {1..3} then 25 else - 15)
                    else if n \<in> {8..15} then 25 else if n \<in> {5..7} then 15 else 0);
            rel = (if 50 * n \<le> S then (S - 50 * n) div (2 * n) else - ((50 * n - S) div (2 * n)));
            bonus = min 15 (5 * int (length (filter (\<lambda>h. contains data_marker (reason h)) hs)))
        in min 100 (max 0 (50 + band + rel + bonus))))"
  using hashtag_strategy_empty hashtag_strategy_nonempty by blast

lemma plain_tag_simps:
  "relevance (plain_tag name rel) = rel"
  "contains data_marker (reason (plain_tag name rel)) = False"
  by (simp_all add: plain_tag_def ascii_def data_marker_def)

theorem hashtag_strategy_formula_witness:
  "[plain_tag ''ai'' 95, plain_tag ''ml'' 90, plain_tag ''data'' 85] \<noteq> []
   \<and> score_hashtag_strategy [plain_tag ''ai'' 95, plain_tag ''ml'' 90, plain_tag ''data'' 85] Twitter = 95"
  using hashtag_strategy_formula [of Twitter "[plain_tag ''ai'' 95, plain_tag ''ml'' 90, plain_tag ''data'' 85]"]
  by (simp add: plain_tag_simps Let_def)

text \<open>
  With the mathematical floor the claim fails for a mean relevance below 50: one Twitter
  hashtag of relevance 45 has \<open>(45 - 50) / 2 = -2.5\<close>; the program adds \<open>int(-2.5) = -2\<close>
  and returns 73, the claimed formula adds \<open>-3\<close> and gives 72.
\<close>

theorem hashtag_strategy_counterexample:
  "score_hashtag_strategy [plain_tag ''ai'' 45] Twitter = 73
   \<and> claimed_hashtag_strategy [plain_tag ''ai'' 45] Twitter = 72"
proof -
  have f: "\<lfloor>- (5 / 2 :: rat)\<rfloor> = - 3" by (rule floor_unique) simp_all
  have c: "\<lceil>- (5 / 2 :: rat)\<rceil> = - 2" by (rule ceiling_unique) simp_all
  show ?thesis
    by (simp add: score_hashtag_strategy_def claimed_hashtag_strategy_def plain_tag_simps Let_def
        py_int_def f c)
qed

lemma floor_weighted:
  assumes five: "5 dvd N" and e: "\<bar>e\<bar> < 1 / 20"
  shows "\<lfloor>rat_of_int N / 100 + e\<rfloor> = (if 100 dvd N \<and> e < 0 then N div 100 - 1 else N div 100)"
proof -
  define q where "q = N div 100"
  define r where "r = N mod 100"
  have N: "N = 100 * q + r" by (simp add: q_def r_def)
  have r: "0 \<le> r" "r < 100" by (simp_all add: r_def)
  have r5: "5 dvd r" using five N by presburger
  have split: "rat_of_int N / 100 = rat_of_int q + rat_of_int r / 100"
    by (simp add: N)
  have dvd: "(100 dvd N) = (r = 0)" unfolding r_def by (simp add: dvd_eq_mod_eq_0)
  have e': "- (1 / 20) < e" "e < 1 / 20" using e by (simp_all add: abs_less_iff)
  show ?thesis
  proof (cases "r = 0")
    case True
    show ?thesis
    proof (cases "e < 0")
      case neg: True
      have "\<lfloor>rat_of_int q + e\<rfloor> = q - 1"
        by (rule floor_unique) (use neg e' in simp_all)
      then show ?thesis using True neg dvd by (simp add: split q_def)
    next
      case False
      have "\<lfloor>rat_of_int q + e\<rfloor> = q"
        by (rule floor_unique) (use False e' in simp_all)
      then show ?thesis using True False dvd by (simp add: split q_def)
    qed
  next
    case False
    then have "5 \<le> r" "r \<le> 95" using r r5 by presburger+
    then have rr: "1 / 20 \<le> rat_of_int r / 100" "rat_of_int r / 100 \<le> 95 / 100"
      by simp_all
    have "\<lfloor>rat_of_int q + rat_of_int r / 100 + e\<rfloor> = q"
      by (rule floor_unique) (use rr e' in linarith)+
    then show ?thesis using False dvd by (simp add: split q_def)
  qed
qed

lemma timing_range: "60 \<le> score_timing L weekday t \<and> score_timing L weekday t \<le> 90"
  by (simp add: score_timing_def Let_def)

lemma data_confidence_range: "30 \<le> calculate_data_confidence ins"
  by (simp add: calculate_data_confidence_def)

lemma weighted_sum_alt:
  "weighted_sum cq hs tr dc = rat_of_int (35 * cq + 35 * hs + 20 * tr + 10 * dc) / 100"
  by (simp add: weighted_sum_def field_simps)


text \<open>
  C4 (amended). The composite score is the weighted sum \<open>0.35 cq + 0.35 hs + 0.20 tr +
  0.10 dc\<close> as the float arithmetic computes it, cut off by \<open>int(...)\<close>: it is truncated,
  not rounded to the nearest integer. With \<open>N = 35 cq + 35 hs + 20 tr + 10 dc\<close> the score
  is \<open>N div 100\<close>, the floor of the exact sum, except where the exact sum is an integer and
  the float sum falls below it; there it is one less. This holds for every rounding error
  \<open>fperr\<close> of size below \<open>1 / 20\<close>.
\<close>

theorem engagement_potential_truncates:
  assumes run: "score_with_learning L fperr weekday t tags pf ins = Inr sc"
    and err: "\<bar>fperr\<bar> < 1 / 20"
  shows "engagement_potential sc =
      (let N = 35 * content_quality sc + 35 * hashtag_strategy sc
               + 20 * timing_relevance sc + 10 * data_confidence sc
       in if 100 dvd N \<and> fperr < 0 then N div 100 - 1 else N div 100)"
proof -
  obtain cq where cq: "score_content_quality_learned L t pf ins = Inr cq"
    using run by (auto simp: score_with_learning_def split: sum.splits)
  define hs where "hs = score_hashtag_strategy tags pf"
  define tr where "tr = score_timing L weekday t"
  define dc where "dc = calculate_data_confidence ins"
  define N where "N = 35 * cq + 35 * hs + 20 * tr + 10 * dc"
  have sc: "sc = \<lparr>content_quality = cq, hashtag_strategy = hs, timing_relevance = tr,
                   data_confidence = dc,
                   engagement_potential = py_int (weighted_sum cq hs tr dc + fperr)\<rparr>"
    using run by (simp add: score_with_learning_def cq Let_def hs_def tr_def dc_def)
  have b: "0 \<le> cq" "0 \<le> hs" "60 \<le> tr" "30 \<le> dc"
    using content_quality_range[OF cq] hashtag_strategy_range[of tags pf]
      timing_range[of L weekday t] data_confidence_range[of ins]
    by (simp_all add: hs_def tr_def dc_def)
  have five: "5 dvd N" unfolding N_def by presburger
  have "1500 \<le> N" using b by (simp add: N_def)
  then have "15 \<le> rat_of_int N / 100" by simp
  moreover have "- (1 / 20) < fperr" using err by (simp add: abs_less_iff)
  ultimately have pos: "0 \<le> rat_of_int N / 100 + fperr" by linarith
  have "engagement_potential sc = py_int (rat_of_int N / 100 + fperr)"
    by (simp add: sc weighted_sum_alt N_def)
  also have "\<dots> = \<lfloor>rat_of_int N / 100 + fperr\<rfloor>"
    using pos by (simp add: py_int_def)
  also have "\<dots> = (if 100 dvd N \<and> fperr < 0 then N div 100 - 1 else N div 100)"
    by (rule floor_weighted[OF five err])
  finally show ?thesis
    unfolding Let_def N_def by (simp add: sc)
qed

lemma ascii_hello: "ascii ''Hello'' = [72, 101, 108, 108, 111]"
  by (simp add: ascii_def)

lemma timing_hello: "score_timing ascii_only_lib 0 (ascii ''Hello'') = 60"
  by (simp add: score_timing_def Let_def ascii_hello py_lower_def ascii_lower_def
      is_ascii_upper_def timely_keywords_def ascii_def)

lemma strategy_three_eighty:
  "score_hashtag_strategy [plain_tag ''ai'' 80, plain_tag ''ml'' 80, plain_tag ''data'' 80] Twitter = 90"
  by (simp add: hashtag_strategy_nonempty plain_tag_simps Let_def)

lemma quality_hello: "score_content_quality_learned ascii_only_lib (ascii ''Hello'') Twitter no_data = Inr 55"
  by (simp add: ascii_hello content_quality_cons no_data_def canonical_range_points_def
      emoji_set_def py_isupper_def is_ascii_upper_def)

lemma confidence_no_data: "calculate_data_confidence no_data = 30"
  by (simp add: calculate_data_confidence_def no_data_def)

lemma run_hello:
  "score_with_learning ascii_only_lib 0 0 (ascii ''Hello'')
      [plain_tag ''ai'' 80, plain_tag ''ml'' 80, plain_tag ''data'' 80] Twitter no_data
   = Inr \<lparr>content_quality = 55, hashtag_strategy = 90, timing_relevance = 60,
           data_confidence = 30, engagement_potential = 65\<rparr>"
proof -
  have "py_int (263 / 4) = 65"
    unfolding py_int_def by (simp add: floor_unique)
  then show ?thesis
    by (simp add: score_with_learning_def quality_hello strategy_three_eighty timing_hello
      confidence_no_data weighted_sum_def)
qed

text \<open>
  Rounding to the nearest integer fails on the text \<open>Hello\<close> with three Twitter hashtags of
  relevance 80, no data and a Monday: the sub-scores are 55, 90, 60 and 30, the weighted
  sum is 65.75, the program returns 65 and the claimed rounding gives 66.
\<close>

theorem engagement_potential_counterexample:
  "score_with_learning ascii_only_lib 0 0 (ascii ''Hello'')
      [plain_tag ''ai'' 80, plain_tag ''ml'' 80, plain_tag ''data'' 80] Twitter no_data
   = Inr \<lparr>content_quality = 55, hashtag_strategy = 90, timing_relevance = 60,
           data_confidence = 30, engagement_potential = 65\<rparr>
   \<and> claimed_engagement_potential 55 90 60 30 = 66"
proof -
  have "\<lfloor>(265 / 4 :: rat)\<rfloor> = 66" by (rule floor_unique) simp_all
  then show ?thesis
    by (simp add: run_hello claimed_engagement_potential_def weighted_sum_def)
qed

theorem engagement_potential_truncates_witness:
  "score_with_learning ascii_only_lib 0 0 (ascii ''Hello'')
      [plain_tag ''ai'' 80, plain_tag ''ml'' 80, plain_tag ''data'' 80] Twitter no_data
   = Inr \<lparr>content_quality = 55, hashtag_strategy = 90, timing_relevance = 60,
           data_confidence = 30, engagement_potential = 65\<rparr>
   \<and> \<bar>0 :: rat\<bar> < 1 / 20
   \<and> (65 :: int) = (35 * 55 + 35 * 90 + 20 * 60 + 10 * 30) div 100"
  using engagement_potential_truncates [OF run_hello] run_hello by simp

section \<open>Properties of the store\<close>

lemma upsert_keys:
  "map s_hashtag (upsert_hashtag_stat h pf rate now rows) =
     (if h \<in> set (map s_hashtag rows) then map s_hashtag rows else map s_hashtag rows @ [h])"
proof -
  have "map s_hashtag (map (\<lambda>r. if s_hashtag r = h then on_conflict_update rate now r else r) rows)
      = map s_hashtag rows"
    by (induction rows) (simp_all add: on_conflict_update_def)
  then show ?thesis
    by (auto simp: upsert_hashtag_stat_def)
qed

lemma upsert_distinct:
  "distinct (map s_hashtag rows) \<Longrightarrow> distinct (map s_hashtag (upsert_hashtag_stat h pf rate now rows))"
  unfolding upsert_keys by simp

lemma upsert_prefix:
  "prefix (map (\<lambda>r. (s_hashtag r, s_platform r)) rows)
          (map (\<lambda>r. (s_hashtag r, s_platform r)) (upsert_hashtag_stat h pf rate now rows))"
proof (cases "\<exists>r \<in> set rows. s_hashtag r = h")
  case True
  have "map (\<lambda>r. (s_hashtag r, s_platform r))
          (map (\<lambda>r. if s_hashtag r = h then on_conflict_update rate now r else r) rows)
      = map (\<lambda>r. (s_hashtag r, s_platform r)) rows"
    by (induction rows) (simp_all add: on_conflict_update_def)
  then have "map (\<lambda>r. (s_hashtag r, s_platform r)) (upsert_hashtag_stat h pf rate now rows)
      = map (\<lambda>r. (s_hashtag r, s_platform r)) rows"
    unfolding upsert_hashtag_stat_def using True by (simp only: if_True)
  then show ?thesis by simp
next
  case False
  then have "upsert_hashtag_stat h pf rate now rows
      = rows @ [\<lparr>s_hashtag = h, s_platform = pf, total_uses = 1, avg_engagement = rate,
                     success_rate = 0, last_used = now\<rparr>]"
    unfolding upsert_hashtag_stat_def by (simp only: if_False)
  then show ?thesis by simp
qed

lemma upsert_uses:
  assumes "r \<in> set rows"
  shows "\<exists>r' \<in> set (upsert_hashtag_stat h pf rate now rows).
           s_hashtag r' = s_hashtag r \<and> s_platform r' = s_platform r
           \<and> total_uses r' = total_uses r + (if s_hashtag r = h then 1 else 0)"
proof (cases "s_hashtag r = h")
  case True
  then have ex: "\<exists>r \<in> set rows. s_hashtag r = h" using assms by blast
  have "on_conflict_update rate now r \<in> set (upsert_hashtag_stat h pf rate now rows)"
    using assms True ex by (force simp: upsert_hashtag_stat_def)
  then show ?thesis using True
    by (intro bexI[of _ "on_conflict_update rate now r"]) (simp_all add: on_conflict_update_def)
next
  case False
  have "r \<in> set (upsert_hashtag_stat h pf rate now rows)"
    using assms False by (force simp: upsert_hashtag_stat_def)
  then show ?thesis using False by (intro bexI[of _ r]) simp_all
qed

lemma upsert_has_row:
  "\<exists>r \<in> set (upsert_hashtag_stat h pf rate now rows). s_hashtag r = h"
proof -
  have "h \<in> set (map s_hashtag (upsert_hashtag_stat h pf rate now rows))"
    unfolding upsert_keys by simp
  then show ?thesis by auto
qed

lemma fold_upsert_distinct:
  "distinct (map s_hashtag rows) \<Longrightarrow>
   distinct (map s_hashtag (fold (\<lambda>h rows. upsert_hashtag_stat h pf rate now rows) tags rows))"
  by (induction tags arbitrary: rows) (simp_all add: upsert_distinct)

lemma fold_upsert_prefix:
  "prefix (map (\<lambda>r. (s_hashtag r, s_platform r)) rows)
          (map (\<lambda>r. (s_hashtag r, s_platform r))
             (fold (\<lambda>h rows. upsert_hashtag_stat h pf rate now rows) tags rows))"
proof (induction tags arbitrary: rows)
  case Nil
  show ?case by simp
next
  case (Cons t tags)
  show ?case
    using prefix_order.order_trans[OF upsert_prefix[of rows t pf rate now]
        Cons.IH[of "upsert_hashtag_stat t pf rate now rows"]]
    by simp
qed

lemma fold_upsert_uses:
  "r \<in> set rows \<Longrightarrow>
   \<exists>r' \<in> set (fold (\<lambda>h rows. upsert_hashtag_stat h pf rate now rows) tags rows).
      s_hashtag r' = s_hashtag r \<and> s_platform r' = s_platform r
      \<and> total_uses r' = total_uses r + int (count_list tags (s_hashtag r))"
proof (induction tags arbitrary: rows r)
  case Nil
  then show ?case by auto
next
  case (Cons t tags)
  obtain r1 where r1: "r1 \<in> set (upsert_hashtag_stat t pf rate now rows)"
      "s_hashtag r1 = s_hashtag r" "s_platform r1 = s_platform r"
      "total_uses r1 = total_uses r + (if s_hashtag r = t then 1 else 0)"
    using upsert_uses[OF Cons.prems, of t pf rate now] by blast
  obtain r2 where r2: "r2 \<in> set (fold (\<lambda>h rows. upsert_hashtag_stat h pf rate now rows) tags
                                    (upsert_hashtag_stat t pf rate now rows))"
      "s_hashtag r2 = s_hashtag r1" "s_platform r2 = s_platform r1"
      "total_uses r2 = total_uses r1 + int (count_list tags (s_hashtag r1))"
    using Cons.IH[OF r1(1)] by blast
  show ?case
    using r1 r2 by (intro bexI[of _ r2]) auto
qed

lemma fold_upsert_has_row:
  "h \<in> set tags \<Longrightarrow>
   \<exists>r \<in> set (fold (\<lambda>h rows. upsert_hashtag_stat h pf rate now rows) tags rows). s_hashtag r = h"
proof (induction tags arbitrary: rows)
  case Nil
  then show ?case by simp
next
  case (Cons t tags)
  show ?case
  proof (cases "h \<in> set tags")
    case True
    then show ?thesis using Cons.IH by simp
  next
    case False
    then have "t = h" using Cons.prems by simp
    then obtain r where "r \<in> set (upsert_hashtag_stat t pf rate now rows)" "s_hashtag r = h"
      using upsert_has_row by blast
    then show ?thesis
      using fold_upsert_uses[of r "upsert_hashtag_stat t pf rate now rows" pf rate now tags]
      by auto
  qed
qed

lemma update_some:
  assumes "find (\<lambda>p. post_id p = pid) (posts st) = Some p"
  shows "update_actual_performance st now pid l c s i =
     Inr (st\<lparr>performance :=
               replace_performance
                 \<lparr>perf_post_id = pid, likes = l, comments = c, shares = s, impressions = i,
                  engagement_rate = compute_engagement_rate l c s i, updated_at = now\<rparr>
                 (performance st),
             hashtag_stats :=
               fold (\<lambda>h rows. upsert_hashtag_stat h (post_platform p)
                                 (compute_engagement_rate l c s i) now rows)
                 (map h_hashtag (filter (\<lambda>h. h_post_id h = pid) (hashtags st)))
                 (hashtag_stats st)\<rparr>)"
  unfolding update_actual_performance_def Let_def assms by (simp only: option.case)

lemma update_none:
  assumes "find (\<lambda>p. post_id p = pid) (posts st) = None"
  shows "update_actual_performance st now pid l c s i = Inl TypeError"
  unfolding update_actual_performance_def Let_def assms by (simp only: option.case)

lemma update_stats:
  assumes "update_actual_performance st now pid l c s i = Inr st'"
  shows "\<exists>p. find (\<lambda>p. post_id p = pid) (posts st) = Some p \<and> hashtag_stats st' =
           fold (\<lambda>h rows. upsert_hashtag_stat h (post_platform p)
                             (compute_engagement_rate l c s i) now rows)
             (map h_hashtag (filter (\<lambda>h. h_post_id h = pid) (hashtags st))) (hashtag_stats st)"
proof (cases "find (\<lambda>p. post_id p = pid) (posts st)")
  case None
  then show ?thesis using assms by (simp add: update_none)
next
  case (Some p)
  have "st' = st\<lparr>performance :=
               replace_performance
                 \<lparr>perf_post_id = pid, likes = l, comments = c, shares = s, impressions = i,
                  engagement_rate = compute_engagement_rate l c s i, updated_at = now\<rparr>
                 (performance st),
             hashtag_stats :=
               fold (\<lambda>h rows. upsert_hashtag_stat h (post_platform p)
                                 (compute_engagement_rate l c s i) now rows)
                 (map h_hashtag (filter (\<lambda>h. h_post_id h = pid) (hashtags st)))
                 (hashtag_stats st)\<rparr>"
    using assms unfolding update_some[OF Some] by simp
  then show ?thesis using Some by simp
qed


lemma count_list_distinct:
  "distinct xs \<Longrightarrow> x \<in> set xs \<Longrightarrow> count_list xs x = 1"
  by (induction xs) auto

lemma count_list_keys:
  "count_list (map s_hashtag rows) k = length (filter (\<lambda>r. s_hashtag r = k) rows)"
  by (induction rows) auto

text \<open>
  C9. The table \<open>hashtag_stats\<close> is keyed by the hashtag alone. It starts empty, and an
  outcome report keeps the hashtags of its rows distinct, so there is at most one row per
  hashtag string whatever the platform. The report leaves every existing row's pair of
  hashtag and platform where it was (new rows are appended behind them), adds to the use
  count of an existing row one for each time the reported post carries that hashtag, even
  when the post is on the other platform, and afterwards each hashtag of the post has
  exactly one row.
\<close>

theorem hashtag_stats_one_row_per_hashtag:
  assumes inv: "distinct (map s_hashtag (hashtag_stats st))"
    and run: "update_actual_performance st now pid l c s i = Inr st'"
  shows "distinct (map s_hashtag (hashtag_stats empty_store))
     \<and> distinct (map s_hashtag (hashtag_stats st'))
     \<and> prefix (map (\<lambda>r. (s_hashtag r, s_platform r)) (hashtag_stats st))
               (map (\<lambda>r. (s_hashtag r, s_platform r)) (hashtag_stats st'))
     \<and> (\<forall>r \<in> set (hashtag_stats st). \<exists>r' \<in> set (hashtag_stats st').
            s_hashtag r' = s_hashtag r \<and> s_platform r' = s_platform r
            \<and> total_uses r' = total_uses r
                 + int (count_list (map h_hashtag (filter (\<lambda>h. h_post_id h = pid) (hashtags st)))
                          (s_hashtag r)))
     \<and> (\<forall>h \<in> set (hashtags st). h_post_id h = pid \<longrightarrow>
            length (filter (\<lambda>r. s_hashtag r = h_hashtag h) (hashtag_stats st')) = 1)"
proof -
  define tags where "tags = map h_hashtag (filter (\<lambda>h. h_post_id h = pid) (hashtags st))"
  from update_stats[OF run, folded tags_def]
  obtain p :: post where st': "hashtag_stats st' =
           fold (\<lambda>h rows. upsert_hashtag_stat h (post_platform p)
                             (compute_engagement_rate l c s i) now rows) tags (hashtag_stats st)"
    by auto
  have e: "distinct (map s_hashtag (hashtag_stats empty_store))"
    by (simp add: empty_store_def)
  have d: "distinct (map s_hashtag (hashtag_stats st'))"
    unfolding st' by (rule fold_upsert_distinct[OF inv])
  have pre: "prefix (map (\<lambda>r. (s_hashtag r, s_platform r)) (hashtag_stats st))
               (map (\<lambda>r. (s_hashtag r, s_platform r)) (hashtag_stats st'))"
    unfolding st' by (rule fold_upsert_prefix)
  have uses: "\<forall>r \<in> set (hashtag_stats st). \<exists>r' \<in> set (hashtag_stats st').
            s_hashtag r' = s_hashtag r \<and> s_platform r' = s_platform r
            \<and> total_uses r' = total_uses r + int (count_list tags (s_hashtag r))"
    unfolding st' by (intro ballI fold_upsert_uses)
  have one: "\<forall>h \<in> set (hashtags st). h_post_id h = pid \<longrightarrow>
            length (filter (\<lambda>r. s_hashtag r = h_hashtag h) (hashtag_stats st')) = 1"
  proof (intro ballI impI)
    fix h assume h: "h \<in> set (hashtags st)" "h_post_id h = pid"
    then have "h_hashtag h \<in> set tags" unfolding tags_def by force
    then have "\<exists>r \<in> set (hashtag_stats st'). s_hashtag r = h_hashtag h"
      unfolding st' by (rule fold_upsert_has_row)
    then have "h_hashtag h \<in> set (map s_hashtag (hashtag_stats st'))" by force
    then have "count_list (map s_hashtag (hashtag_stats st')) (h_hashtag h) = 1"
      using d by (simp only: count_list_distinct)
    then show "length (filter (\<lambda>r. s_hashtag r = h_hashtag h) (hashtag_stats st')) = 1"
      by (simp only: count_list_keys)
  qed
  from e d pre uses one show ?thesis unfolding tags_def by blast
qed

lemma shared_update:
  "update_actual_performance shared_tag_store 9 1 10 0 0 100 =
     Inr (shared_tag_store
           \<lparr>performance := [\<lparr>perf_post_id = 1, likes = 10, comments = 0, shares = 0,
                              impressions = 100, engagement_rate = 10, updated_at = 9\<rparr>],
            hashtag_stats := [\<lparr>s_hashtag = ascii ''ai'', s_platform = Instagram, total_uses = 2,
                                avg_engagement = 10, success_rate = 0, last_used = 9\<rparr>]\<rparr>)"
  by (simp add: update_actual_performance_def shared_tag_store_def example_post_def ai_tag_def
      compute_engagement_rate_def replace_performance_def upsert_hashtag_stat_def
      on_conflict_update_def Let_def)

theorem hashtag_stats_one_row_per_hashtag_witness:
  "distinct (map s_hashtag (hashtag_stats shared_tag_store))
   \<and> update_actual_performance shared_tag_store 9 1 10 0 0 100 =
     Inr (shared_tag_store
           \<lparr>performance := [\<lparr>perf_post_id = 1, likes = 10, comments = 0, shares = 0,
                              impressions = 100, engagement_rate = 10, updated_at = 9\<rparr>],
            hashtag_stats := [\<lparr>s_hashtag = ascii ''ai'', s_platform = Instagram, total_uses = 2,
                                avg_engagement = 10, success_rate = 0, last_used = 9\<rparr>]\<rparr>)
   \<and> map (\<lambda>r. (s_hashtag r, s_platform r)) (hashtag_stats shared_tag_store)
       = [(ascii ''ai'', Instagram)]
   \<and> post_platform (hd (posts shared_tag_store)) = Twitter"
proof -
  have d: "distinct (map s_hashtag (hashtag_stats shared_tag_store))"
    by (simp add: shared_tag_store_def)
  show ?thesis
    using hashtag_stats_one_row_per_hashtag [OF d shared_update] d shared_update
    by (simp add: shared_tag_store_def example_post_def)
qed


lemma running_average_general:
  assumes "1 \<le> total_uses r"
  shows "total_uses (fold (\<lambda>x r. on_conflict_update x now r) rates r)
           = total_uses r + int (length rates)
       \<and> avg_engagement (fold (\<lambda>x r. on_conflict_update x now r) rates r)
           * rat_of_int (total_uses r + int (length rates) - 1)
           = avg_engagement r * rat_of_int (total_uses r - 1) + sum_list rates"
  using assms
proof (induction rates arbitrary: r)
  case Nil
  show ?case by simp
next
  case (Cons x rates)
  define r1 where "r1 = on_conflict_update x now r"
  have n1: "total_uses r1 = total_uses r + 1"
    and a1: "avg_engagement r1 * rat_of_int (total_uses r)
              = avg_engagement r * rat_of_int (total_uses r - 1) + x"
    using Cons.prems by (simp_all add: r1_def on_conflict_update_def)
  have "1 \<le> total_uses r1" using n1 Cons.prems by simp
  from Cons.IH[OF this] n1 a1 show ?case
    by (simp add: r1_def[symmetric] add.commute add.left_commute)
qed

lemma running_average_drops_first:
  assumes "total_uses r = 1" and "rates \<noteq> []"
  shows "avg_engagement (fold (\<lambda>x r. on_conflict_update x now r) rates r)
           = sum_list rates / rat_of_nat (length rates)"
proof -
  have "avg_engagement (fold (\<lambda>x r. on_conflict_update x now r) rates r)
           * rat_of_int (1 + int (length rates) - 1) = avg_engagement r * rat_of_int (1 - 1) + sum_list rates"
    using running_average_general[of r now rates] assms by simp
  then have "avg_engagement (fold (\<lambda>x r. on_conflict_update x now r) rates r)
           * rat_of_nat (length rates) = sum_list rates"
    by simp
  moreover have "rat_of_nat (length rates) \<noteq> 0" using assms by simp
  ultimately show ?thesis by (simp add: field_simps)
qed

text \<open>
  C1. The stored average is not the mean of the recorded rates. Two Twitter posts carry
  the hashtag \<open>ai\<close>; their outcomes are reported with rates 100 and 50. The aggregate then
  holds two uses and the average 50, the rate of the second report, and 100 when the
  reports come in the other order; the mean of the two rates is 75. In general
  (\<open>running_average_drops_first\<close>) the update divides by the count before the increment,
  so the stored average is the mean of all rates but the first.
\<close>

theorem running_average_ignores_first_report:
  "map_sum id (\<lambda>st. (map engagement_rate (performance st), aggregate_of st (ascii ''ai'')))
     (report_all two_post_store 0 [(1, 100, 0, 0, 100), (2, 50, 0, 0, 100)])
     = Inr ([100, 50], [(2, 50)])
   \<and> map_sum id (\<lambda>st. (map engagement_rate (performance st), aggregate_of st (ascii ''ai'')))
     (report_all two_post_store 0 [(2, 50, 0, 0, 100), (1, 100, 0, 0, 100)])
     = Inr ([50, 100], [(2, 100)])
   \<and> sum_list [100, 50 :: rat] / 2 = 75"
  by (simp add: update_actual_performance_def two_post_store_def example_post_def ai_tag_def
      compute_engagement_rate_def replace_performance_def upsert_hashtag_stat_def
      on_conflict_update_def Let_def aggregate_of_def)





section \<open>Properties of the proposer\<close>

lemma generic_tags_facts:
  "distinct generic_tags" "length generic_tags = 15" "\<forall>g \<in> set generic_tags. py_lower L g = g"
  by (simp_all add: generic_tags_def ascii_def py_lower_def ascii_lower_def is_ascii_upper_def)

lemma blocked_count:
  assumes "distinct gs"
  shows "length (filter (\<lambda>g. \<exists>h \<in> set hs. f h = g) gs) \<le> length hs"
proof -
  have "distinct (filter (\<lambda>g. \<exists>h \<in> set hs. f h = g) gs)" using assms by simp
  then have "length (filter (\<lambda>g. \<exists>h \<in> set hs. f h = g) gs)
      = card (set (filter (\<lambda>g. \<exists>h \<in> set hs. f h = g) gs))"
    by (simp only: distinct_card)
  also have "\<dots> \<le> card (f ` set hs)"
    by (rule card_mono) auto
  also have "\<dots> \<le> card (set hs)" by (rule card_image_le) simp
  also have "\<dots> \<le> length hs" by (rule card_length)
  finally show ?thesis .
qed

lemma free_count:
  assumes "distinct gs"
  shows "length gs - length hs \<le> length (filter (\<lambda>g. \<not> (\<exists>h \<in> set hs. f h = g)) gs)"
proof -
  have "length (filter (\<lambda>g. \<exists>h \<in> set hs. f h = g) gs)
      + length (filter (\<lambda>g. \<not> (\<exists>h \<in> set hs. f h = g)) gs) = length gs"
    by (rule sum_length_filter_compl)
  with blocked_count[OF assms, of hs f] show ?thesis by linarith
qed

lemma add_generic_length:
  assumes "distinct gs" and "\<forall>g \<in> set gs. py_lower L g = g"
  shows "min n (length hs + length (filter (\<lambda>g. \<not> (\<exists>h \<in> set hs. py_lower L (tag h) = g)) gs))
           \<le> length (add_generic L n gs hs)"
  using assms
proof (induction gs arbitrary: hs)
  case Nil
  show ?case by simp
next
  case (Cons g gs)
  have d: "distinct gs" and low: "\<forall>g \<in> set gs. py_lower L g = g"
    and g: "g \<notin> set gs" "py_lower L g = g"
    using Cons.prems by simp_all
  show ?case
  proof (cases "n \<le> length hs")
    case True
    then show ?thesis by simp
  next
    case full: False
    show ?thesis
    proof (cases "\<exists>h \<in> set hs. py_lower L (tag h) = g")
      case True
      have "filter (\<lambda>g'. \<not> (\<exists>h \<in> set hs. py_lower L (tag h) = g')) (g # gs)
          = filter (\<lambda>g'. \<not> (\<exists>h \<in> set hs. py_lower L (tag h) = g')) gs"
        using True by simp
      moreover have "add_generic L n (g # gs) hs = add_generic L n gs hs"
        using full True by simp
      ultimately show ?thesis using Cons.IH[OF d low, of hs] by (simp only:)
    next
      case False
      have same: "filter (\<lambda>g'. \<not> (\<exists>h \<in> set (hs @ [generic_item g]). py_lower L (tag h) = g')) gs
          = filter (\<lambda>g'. \<not> (\<exists>h \<in> set hs. py_lower L (tag h) = g')) gs"
        using g by (intro filter_cong refl) (auto simp: generic_item_def)
      have "filter (\<lambda>g'. \<not> (\<exists>h \<in> set hs. py_lower L (tag h) = g')) (g # gs)
          = g # filter (\<lambda>g'. \<not> (\<exists>h \<in> set hs. py_lower L (tag h) = g')) gs"
        using False by simp
      moreover have "add_generic L n (g # gs) hs = add_generic L n gs (hs @ [generic_item g])"
        using full False by simp
      ultimately show ?thesis
        using Cons.IH[OF d low, of "hs @ [generic_item g]"]
        by (simp only: same length_append list.size length_Cons)
    qed
  qed
qed

lemma add_generic_fills:
  assumes "n \<le> 15"
  shows "n \<le> length (add_generic L n generic_tags hs)"
proof -
  have "15 - length hs \<le> length (filter (\<lambda>g. \<not> (\<exists>h \<in> set hs. py_lower L (tag h) = g)) generic_tags)"
    using free_count[OF generic_tags_facts(1), of hs "\<lambda>h. py_lower L (tag h)"]
    by (simp add: generic_tags_facts(2))
  then have "n \<le> min n (length hs
      + length (filter (\<lambda>g. \<not> (\<exists>h \<in> set hs. py_lower L (tag h) = g)) generic_tags))"
    using assms by linarith
  also have "\<dots> \<le> length (add_generic L n generic_tags hs)"
    by (rule add_generic_length[OF generic_tags_facts(1) generic_tags_facts(3)])
  finally show ?thesis .
qed

lemma target_count_le: "target_count pf \<le> 15"
  by (simp add: target_count_def)

lemma fallback_length: "length (fallback_hashtags L t pf tops) = target_count pf"
proof -
  define n where "n = target_count pf"
  have n: "n \<le> 15" unfolding n_def by (rule target_count_le)
  have "n \<le> length (if length hs < n then add_generic L n generic_tags hs else hs)"
    for hs :: "hashtag list"
    using add_generic_fills[OF n, of L hs] by simp
  then show ?thesis
    unfolding fallback_hashtags_def Let_def n_def[symmetric] by simp
qed

text \<open>
  C8. The proposer returns exactly 3 hashtags for Twitter and exactly 12 for Instagram,
  whatever the reply of the text-generation service: a decoded list of at least that many
  records is cut to that number, and every other reply leads to the fallback, which always
  fills the list. The fallback cannot run short: its last source is a pool of 15 distinct
  generic tags, each hashtag already in the list can keep at most one of them out, and a
  generic tag added earlier keeps out only itself, so the pool always has enough to
  reach 3 or 12. The condition of the claim (the sources can supply N tags) always holds.
\<close>

theorem propose_returns_exactly_n:
  "length (generate_hashtags_with_learning L reply t pf tops) = (if pf = Twitter then 3 else 12)
   \<and> length (fallback_hashtags L t pf tops) = (if pf = Twitter then 3 else 12)"
proof -
  have "length (generate_hashtags_with_learning L reply t pf tops) = target_count pf"
    by (cases reply) (simp_all add: generate_hashtags_with_learning_def Let_def fallback_length)
  then show ?thesis
    by (simp add: fallback_length target_count_def)
qed

section \<open>Properties of the search for similar posts\<close>













section \<open>Properties of the learning insights\<close>










end
